theory Spec2Isabelle
  imports Complex_Main "HOL-Library.Word" "HOL-Library.Sublist"
begin

section \<open>Slow-change stimulus generation: a model of make\_slow\_change\_stimuli.py\<close>

text \<open>
  The script is modelled under Python 3 semantics (\<open>/\<close> is true division, \<open>int\<close>
  truncates toward zero). Floating-point numbers are modelled as rationals, so results
  that depend on binary rounding are outside the model. Images are RGB rasters, as
  \<open>Image.fromarray(..., 'RGB')\<close> has them: a list of rows, each a list of pixels with
  three 8-bit channels. Writing an image to a directory and opening it again is modelled
  as returning the stored raster (the loss of the JPEG codec is not modelled).
\<close>

subsection \<open>Errors\<close>

datatype error =
    FileNotFoundError string
  | ValueError
  | ZeroDivisionError
  | IndexError

subsection \<open>Global variables\<close>

record config =
  morph_length_seconds :: nat
  steps_per_second_video :: nat
  no_change_in_seconds :: nat
  quick_change_time_section_proportion :: rat
  color :: string
  jpg_path :: string
  temp_path :: string
  morph_path :: string
  output_path :: string
  ffmpeg_path :: string

definition number_of_morph_steps :: "config \<Rightarrow> nat" where
  "number_of_morph_steps cfg = morph_length_seconds cfg * steps_per_second_video cfg"

definition no_change_in_frames :: "config \<Rightarrow> nat" where
  "no_change_in_frames cfg = no_change_in_seconds cfg * steps_per_second_video cfg"

definition quick_change_length_frames :: "config \<Rightarrow> nat" where
  "quick_change_length_frames cfg = steps_per_second_video cfg"

definition change_step :: "config \<Rightarrow> rat" where
  "change_step cfg = 1 / (of_nat (quick_change_length_frames cfg) + 1)"

definition default_config :: config where
  "default_config = \<lparr>
     morph_length_seconds = 16,
     steps_per_second_video = 12,
     no_change_in_seconds = 2,
     quick_change_time_section_proportion = 3 / 4,
     color = ''Yellow_Orange'',
     jpg_path = ''/Users/haleyfrey/Dropbox/MakeMovies/SlowChangeImages/Yellow_Orange'',
     temp_path = ''/Users/haleyfrey/Dropbox/MakeMovies/create_slow_change_scenes/temp/'',
     morph_path = ''/Users/haleyfrey/Dropbox/MakeMovies/create_slow_change_scenes/morph_frames/'',
     output_path = ''/Users/haleyfrey/Dropbox/MakeMovies/create_slow_change_scenes/final_videos/'',
     ffmpeg_path = ''/Applications/ffmpeg'' \<rparr>"

subsection \<open>Images and arrays\<close>

type_synonym pixel = "8 word \<times> 8 word \<times> 8 word"
type_synonym image = "pixel list list"
type_synonym fpixel = "rat \<times> rat \<times> rat"
type_synonym farray = "fpixel list list"

text \<open>The shape of an array: number of rows, then number of columns.\<close>

definition shape :: "'a list list \<Rightarrow> nat \<times> nat" where
  "shape a = (length a, (case a of [] \<Rightarrow> 0 | r # _ \<Rightarrow> length r))"

definition rectangular :: "'a list list \<Rightarrow> bool" where
  "rectangular a = list_all (\<lambda>r. length r = snd (shape a)) a"

text \<open>A raster as an image file holds it: at least one row, at least one column.\<close>

definition valid_image :: "'a list list \<Rightarrow> bool" where
  "valid_image a = (0 < fst (shape a) \<and> 0 < snd (shape a) \<and> rectangular a)"

text \<open>\<open>Image.size\<close> is (width, height).\<close>

definition size_of :: "'a list list \<Rightarrow> nat \<times> nat" where
  "size_of a = (snd (shape a), fst (shape a))"

text \<open>An 8-bit array times a float: every channel becomes a float.\<close>

definition scale_pixel :: "rat \<Rightarrow> pixel \<Rightarrow> fpixel" where
  "scale_pixel w p =
     (case p of (r, g, b) \<Rightarrow> (of_nat (unat r) * w, of_nat (unat g) * w, of_nat (unat b) * w))"

definition times_scalar :: "image \<Rightarrow> rat \<Rightarrow> farray" where
  "times_scalar a w = map (map (scale_pixel w)) a"

text \<open>
  numpy adds two arrays after broadcasting their shapes: two extents are compatible when
  they are equal or one of them is 1, and an axis of extent 1 is stretched to the other
  operand's extent. Anything else raises ValueError.
\<close>

definition broadcast_dim :: "nat \<Rightarrow> nat \<Rightarrow> error + nat" where
  "broadcast_dim m n =
     (if m = n then Inr m
      else if m = 1 then Inr n
      else if n = 1 then Inr m
      else Inl ValueError)"

definition stretch :: "nat \<Rightarrow> 'a list \<Rightarrow> 'a list" where
  "stretch n xs = (if length xs = n then xs else replicate n (hd xs))"

definition add_fpixel :: "fpixel \<Rightarrow> fpixel \<Rightarrow> fpixel" where
  "add_fpixel p q = (case p of (r, g, b) \<Rightarrow> (case q of (r', g', b') \<Rightarrow> (r + r', g + g', b + b')))"

definition add_arrays :: "farray \<Rightarrow> farray \<Rightarrow> error + farray" where
  "add_arrays a b =
     (case broadcast_dim (fst (shape a)) (fst (shape b)) of
        Inl e \<Rightarrow> Inl e
      | Inr h \<Rightarrow>
         (case broadcast_dim (snd (shape a)) (snd (shape b)) of
            Inl e \<Rightarrow> Inl e
          | Inr w \<Rightarrow>
             Inr (map2 (map2 add_fpixel)
                    (stretch h (map (stretch w) a))
                    (stretch h (map (stretch w) b)))))"

text \<open>
  \<open>astype(numpy.uint8)\<close>: the fractional part is dropped (toward zero) and the integer is
  kept modulo 256.
\<close>

definition py_int :: "rat \<Rightarrow> int" where
  "py_int x = (if 0 \<le> x then \<lfloor>x\<rfloor> else \<lceil>x\<rceil>)"

definition to_uint8 :: "rat \<Rightarrow> 8 word" where
  "to_uint8 x = of_int (py_int x)"

definition uint8_pixel :: "fpixel \<Rightarrow> pixel" where
  "uint8_pixel p = (case p of (r, g, b) \<Rightarrow> (to_uint8 r, to_uint8 g, to_uint8 b))"

definition astype_uint8 :: "farray \<Rightarrow> image" where
  "astype_uint8 a = map (map uint8_pixel) a"

text \<open>
  The expression shared by lines 110-111 and 147-148: a weighted sum of two images,
  converted back to 8 bits.
\<close>

definition weighted_average :: "image \<Rightarrow> rat \<Rightarrow> image \<Rightarrow> rat \<Rightarrow> error + image" where
  "weighted_average a wa b wb =
     (case add_arrays (times_scalar a wa) (times_scalar b wb) of
        Inl e \<Rightarrow> Inl e
      | Inr s \<Rightarrow> Inr (astype_uint8 s))"

text \<open>What the weighted sum does to one pair of pixels.\<close>

definition blend_pixel :: "rat \<Rightarrow> rat \<Rightarrow> pixel \<Rightarrow> pixel \<Rightarrow> pixel" where
  "blend_pixel wa wb p q = uint8_pixel (add_fpixel (scale_pixel wa p) (scale_pixel wb q))"

text \<open>Line 110: the slow colour morph at step \<open>morph_step\<close>.\<close>

definition image_data_morph :: "config \<Rightarrow> image \<Rightarrow> image \<Rightarrow> nat \<Rightarrow> error + image" where
  "image_data_morph cfg first_img second_img morph_step =
     (if number_of_morph_steps cfg = 0 then Inl ZeroDivisionError
      else weighted_average
             first_img
             (of_int (int (number_of_morph_steps cfg) - int morph_step)
                / of_nat (number_of_morph_steps cfg))
             second_img
             (of_nat morph_step / of_nat (number_of_morph_steps cfg)))"

text \<open>Line 147: the quick-change morph, weighted by \<open>count\<close>.\<close>

definition quick_change_morph :: "config \<Rightarrow> image \<Rightarrow> image \<Rightarrow> rat \<Rightarrow> error + image" where
  "quick_change_morph cfg imgA imgB count =
     weighted_average imgA (change_step cfg * count) imgB (1 - change_step cfg * count)"

text \<open>
  The blend of the specification: \<open>weight\<close> is the fraction of the second image.
\<close>

definition spec_blend :: "image \<Rightarrow> image \<Rightarrow> rat \<Rightarrow> error + image" where
  "spec_blend a b weight = weighted_average a (1 - weight) b weight"

subsection \<open>Resizing to even dimensions\<close>

text \<open>
  \<open>Image.resize\<close> returns a copy when the size is unchanged and otherwise an image of the
  requested size whose pixels come from the resampling filter. The filter is a parameter:
  it gives the pixel at a row and a column of the result.
\<close>

type_synonym resampler = "nat \<times> nat \<Rightarrow> image \<Rightarrow> nat \<Rightarrow> nat \<Rightarrow> pixel"

definition resize :: "resampler \<Rightarrow> nat \<times> nat \<Rightarrow> image \<Rightarrow> image" where
  "resize rs sz img =
     (if size_of img = sz then img
      else map (\<lambda>y. map (\<lambda>x. rs sz img y x) [0..<fst sz]) [0..<snd sz])"

definition even_up :: "nat \<Rightarrow> nat" where
  "even_up n = (if n mod 2 \<noteq> 0 then n + 1 else n)"

text \<open>Lines 162-165.\<close>

definition normalize_frame :: "resampler \<Rightarrow> image \<Rightarrow> image" where
  "normalize_frame rs img =
     (case size_of img of (width, height) \<Rightarrow> resize rs (even_up width, even_up height) img)"

subsection \<open>Onset of a quick change\<close>

text \<open>Line 120, with the draw of \<open>numpy.random.rand()\<close> as the argument \<open>r\<close>.\<close>

definition new_change_moment_prop :: "config \<Rightarrow> nat \<Rightarrow> nat \<Rightarrow> rat \<Rightarrow> rat" where
  "new_change_moment_prop cfg quick_change_index num_quick_changes r =
     of_nat quick_change_index / of_nat num_quick_changes
     + (1 / of_nat num_quick_changes) * (1 - quick_change_time_section_proportion cfg) / 2
     + (1 / of_nat num_quick_changes) * quick_change_time_section_proportion cfg * r"

text \<open>Line 121.\<close>

definition new_change_moment_frame :: "config \<Rightarrow> nat \<Rightarrow> nat \<Rightarrow> rat \<Rightarrow> int" where
  "new_change_moment_frame cfg quick_change_index num_quick_changes r =
     py_int (new_change_moment_prop cfg quick_change_index num_quick_changes r
               * of_nat (number_of_morph_steps cfg + 1))"

subsection \<open>Strings\<close>

text \<open>\<open>s.split(c)\<close> for a one-character separator: never an empty list.\<close>

fun split :: "char \<Rightarrow> string \<Rightarrow> string list" where
  "split c [] = [[]]"
| "split c (x # xs) =
     (if x = c then [] # split c xs
      else (case split c xs of [] \<Rightarrow> [[x]] | y # ys \<Rightarrow> (x # y) # ys))"

text \<open>Indexing a list raises IndexError out of range (only non-negative indices occur).\<close>

definition index :: "'a list \<Rightarrow> nat \<Rightarrow> error + 'a" where
  "index xs i = (if i < length xs then Inr (xs ! i) else Inl IndexError)"

definition segment :: "char \<Rightarrow> nat \<Rightarrow> string \<Rightarrow> error + string" where
  "segment c i s = index (split c s) i"

text \<open>\<open>s.split(c)[0]\<close>, which always exists.\<close>

definition first_segment :: "char \<Rightarrow> string \<Rightarrow> string" where
  "first_segment c s = (case split c s of [] \<Rightarrow> [] | x # _ \<Rightarrow> x)"

text \<open>
  \<open>re.sub(pattern, repl, s)\<close> for a pattern and a replacement made of ordinary
  characters (no regular-expression operator, no backslash): every non-overlapping
  occurrence of the pattern, found from the left, is replaced. An empty pattern matches
  before every character and at the end.
\<close>

function sub_occurrences :: "string \<Rightarrow> string \<Rightarrow> string \<Rightarrow> string" where
  "sub_occurrences p r s =
     (if p = [] \<or> s = [] then s
      else if prefix p s then r @ sub_occurrences p r (drop (length p) s)
      else hd s # sub_occurrences p r (tl s))"
  by pat_completeness auto
termination
  by (relation "measure (\<lambda>(p, r, s). length s)") auto

declare sub_occurrences.simps [simp del]

definition re_sub :: "string \<Rightarrow> string \<Rightarrow> string \<Rightarrow> string" where
  "re_sub p r s =
     (if p = [] then r @ concat (map (\<lambda>c. c # r) s) else sub_occurrences p r s)"


text \<open>\<open>str\<close> of an integer.\<close>

definition digit_char :: "nat \<Rightarrow> char" where
  "digit_char d = ''0123456789'' ! d"

fun str_nat :: "nat \<Rightarrow> string" where
  "str_nat n = (if n < 10 then [digit_char n] else str_nat (n div 10) @ [digit_char (n mod 10)])"

declare str_nat.simps [simp del]

definition str_int :: "int \<Rightarrow> string" where
  "str_int i = (if i < 0 then CHR ''-'' # str_nat (nat (- i)) else str_nat (nat i))"

definition newline :: string where
  "newline = [CHR 0x0A]"

subsection \<open>The world the script runs in\<close>

text \<open>
  The directories hold images under their file names. The input directory keeps the order
  in which \<open>os.listdir\<close> lists it. A text file that does not exist yet and an empty one
  behave alike under mode \<open>a+\<close>, so both are the empty string.
\<close>

record state =
  jpg_dir :: "(string \<times> image) list"
  temp_dir :: "string \<rightharpoonup> image"
  morph_dir :: "string \<rightharpoonup> image"
  readme :: string
  makeVideo :: string
  stdout :: "string list"
  commands_run :: "string list"
  image_data_this_frame :: "image option"

type_synonym 'a result = "(error \<times> state) + 'a"

text \<open>
  What the script does not decide itself: the order in which a Python set of strings is
  listed, the resampling filter of \<open>Image.resize\<close>, and the encoder, which answers a
  command with the text printed for its captured error stream (its exit status is never
  read by the script).
\<close>

record environment =
  set_order :: "string list \<Rightarrow> string list"
  resample :: resampler
  ffmpeg :: "string \<Rightarrow> string \<Rightarrow> (string \<rightharpoonup> image) \<Rightarrow> string"

text \<open>
  The random draws of one scene: the indices drawn by the two shuffles and the values of
  \<open>numpy.random.rand()\<close>, by position.
\<close>

record randomness =
  slow_draws :: "nat \<Rightarrow> nat"
  quick_draws :: "nat \<Rightarrow> nat"
  rand :: "nat \<Rightarrow> rat"

text \<open>
  \<open>numpy.random.shuffle\<close>: from the last position down to the second, the element is
  swapped with one at a drawn position not after it.
\<close>

fun shuffle_from :: "(nat \<Rightarrow> nat) \<Rightarrow> nat \<Rightarrow> 'a list \<Rightarrow> 'a list" where
  "shuffle_from js 0 xs = xs"
| "shuffle_from js (Suc i) xs =
     (let j = js (Suc i) mod (Suc (Suc i))
      in shuffle_from js i (xs[Suc i := xs ! j, j := xs ! Suc i]))"

definition shuffle :: "(nat \<Rightarrow> nat) \<Rightarrow> 'a list \<Rightarrow> 'a list" where
  "shuffle js xs = shuffle_from js (length xs - 1) xs"

text \<open>Loops that stop at the first exception.\<close>

fun for_each :: "('a \<Rightarrow> state \<Rightarrow> state result) \<Rightarrow> 'a list \<Rightarrow> state \<Rightarrow> state result" where
  "for_each body [] st = Inr st"
| "for_each body (x # xs) st =
     (case body x st of Inl e \<Rightarrow> Inl e | Inr st' \<Rightarrow> for_each body xs st')"

fun map_raise :: "('a \<Rightarrow> error + 'b) \<Rightarrow> 'a list \<Rightarrow> error + 'b list" where
  "map_raise f [] = Inr []"
| "map_raise f (x # xs) =
     (case f x of
        Inl e \<Rightarrow> Inl e
      | Inr y \<Rightarrow> (case map_raise f xs of Inl e \<Rightarrow> Inl e | Inr ys \<Rightarrow> Inr (y # ys)))"

fun filter_raise :: "('a \<Rightarrow> error + bool) \<Rightarrow> 'a list \<Rightarrow> error + 'a list" where
  "filter_raise f [] = Inr []"
| "filter_raise f (x # xs) =
     (case f x of
        Inl e \<Rightarrow> Inl e
      | Inr b \<Rightarrow>
         (case filter_raise f xs of
            Inl e \<Rightarrow> Inl e
          | Inr ys \<Rightarrow> Inr (if b then x # ys else ys)))"

text \<open>\<open>Image.open\<close> on a file of a directory.\<close>

definition open_image :: "(string \<rightharpoonup> image) \<Rightarrow> string \<Rightarrow> error + image" where
  "open_image dir name =
     (case dir name of None \<Rightarrow> Inl (FileNotFoundError name) | Some img \<Rightarrow> Inr img)"

subsection \<open>Step 1: the files of a scene and its changes\<close>

record plan =
  filename_root :: string
  these_file_names :: "string list"
  slow_change_options :: "string list"
  num_quick_changes :: int
  all_quick_change_options :: "string list list"
  quick_changes_in_name_order :: "string list list"

text \<open>Lines 58-59.\<close>

definition jpg_file_names :: "state \<Rightarrow> string list" where
  "jpg_file_names st = filter (sublist ''.jpg'') (map fst (jpg_dir st))"


text \<open>Line 67, before the shuffle.\<close>

definition slow_change_pair :: "config \<Rightarrow> error + string list" where
  "slow_change_pair cfg =
     (case segment CHR ''_'' 0 (color cfg) of
        Inl e \<Rightarrow> Inl e
      | Inr c0 \<Rightarrow>
         (case segment CHR ''_'' 1 (color cfg) of
            Inl e \<Rightarrow> Inl e
          | Inr c1 \<Rightarrow> Inr [c0, c1]))"

text \<open>Lines 75-76: the values seen at one position of the names, without the extension.\<close>

definition quick_change_options :: "environment \<Rightarrow> string list \<Rightarrow> nat \<Rightarrow> error + string list" where
  "quick_change_options env these quick_change_index =
     (case map_raise (segment CHR ''_'' (quick_change_index + 2)) these of
        Inl e \<Rightarrow> Inl e
      | Inr segs \<Rightarrow> Inr (map (first_segment CHR ''.'') (set_order env segs)))"

text \<open>Lines 65-80.\<close>

definition scene_setup :: "config \<Rightarrow> environment \<Rightarrow> randomness \<Rightarrow> state \<Rightarrow> string \<Rightarrow> error + plan" where
  "scene_setup cfg env rnd st root_name =
     (let these = filter (\<lambda>n. first_segment CHR ''_'' n = root_name) (jpg_file_names st) in
      case slow_change_pair cfg of
        Inl e \<Rightarrow> Inl e
      | Inr pair \<Rightarrow>
         (case index these 0 of
            Inl e \<Rightarrow> Inl e
          | Inr first_name \<Rightarrow>
             (let num = int (length (split CHR ''_'' first_name)) - 2 in
              case map_raise (quick_change_options env these) [0..<nat num] of
                Inl e \<Rightarrow> Inl e
              | Inr opts \<Rightarrow>
                 Inr \<lparr> filename_root = root_name,
                       these_file_names = these,
                       slow_change_options = shuffle (slow_draws rnd) pair,
                       num_quick_changes = num,
                       all_quick_change_options = shuffle (quick_draws rnd) opts,
                       quick_changes_in_name_order = opts \<rparr>)))"

subsection \<open>The README entry\<close>

text \<open>Lines 86-89 and 172-175: a file opened for appending gets a newline first unless empty.\<close>

definition append_start :: "string \<Rightarrow> string" where
  "append_start text = (if length text > 0 then text @ newline else text)"

definition change_line :: "string list \<Rightarrow> error + string" where
  "change_line pair =
     (case index pair 0 of
        Inl e \<Rightarrow> Inl e
      | Inr a \<Rightarrow>
         (case index pair 1 of
            Inl e \<Rightarrow> Inl e
          | Inr b \<Rightarrow> Inr (a @ '' changes to '' @ b @ ''.'' @ newline)))"

definition write_change_line :: "plan \<Rightarrow> nat \<Rightarrow> state \<Rightarrow> state result" where
  "write_change_line pl one_change st =
     (case index (all_quick_change_options pl) one_change of
        Inl e \<Rightarrow> Inl (e, st)
      | Inr pair \<Rightarrow>
         (case change_line pair of
            Inl e \<Rightarrow> Inl (e, st)
          | Inr text \<Rightarrow> Inr (st\<lparr>readme := readme st @ text\<rparr>)))"

text \<open>Lines 84-96.\<close>

definition write_readme :: "plan \<Rightarrow> state \<Rightarrow> state result" where
  "write_readme pl st =
     (let st1 = st\<lparr>readme := append_start (readme st)
                   @ ''This slow change video is of '' @ filename_root pl @ ''.'' @ newline\<rparr> in
      case index (slow_change_options pl) 0 of
        Inl e \<Rightarrow> Inl (e, st1)
      | Inr c0 \<Rightarrow>
         (case index (slow_change_options pl) 1 of
            Inl e \<Rightarrow> Inl (e, st1)
          | Inr c1 \<Rightarrow>
             (let st2 = st1\<lparr>readme := readme st1
                   @ ''The beginning color is '' @ c0 @ '' and the ending color is '' @ c1
                   @ ''.'' @ newline
                   @ ''There are '' @ str_int (num_quick_changes pl)
                   @ '' quick changes which occur as follows:'' @ newline\<rparr>
              in for_each (write_change_line pl) [0..<nat (num_quick_changes pl)] st2)))"

subsection \<open>Step 2: the slow colour morphs\<close>

text \<open>Line 99: is the colour of this file name the first slow option?\<close>

definition is_first_slow_option :: "plan \<Rightarrow> string \<Rightarrow> error + bool" where
  "is_first_slow_option pl this_file_name =
     (case segment CHR ''_'' 1 this_file_name of
        Inl e \<Rightarrow> Inl e
      | Inr c \<Rightarrow>
         (case index (slow_change_options pl) 0 of
            Inl e \<Rightarrow> Inl e
          | Inr c0 \<Rightarrow> Inr (c = c0)))"

text \<open>Lines 110-115: one morph step, saved in the temporary directory.\<close>

definition save_morph_step ::
  "config \<Rightarrow> string \<Rightarrow> string \<Rightarrow> image \<Rightarrow> image \<Rightarrow> nat \<Rightarrow> state \<Rightarrow> state result" where
  "save_morph_step cfg c0 file_name first_img second_img morph_step st =
     (case image_data_morph cfg first_img second_img morph_step of
        Inl e \<Rightarrow> Inl (e, st)
      | Inr img \<Rightarrow>
         Inr (st\<lparr>temp_dir :=
                (temp_dir st)(re_sub c0 (''morph'' @ str_nat morph_step) file_name \<mapsto> img)\<rparr>))"

text \<open>Lines 103-115: the morphs of one file of the first colour.\<close>

definition morph_file :: "config \<Rightarrow> plan \<Rightarrow> string \<Rightarrow> state \<Rightarrow> state result" where
  "morph_file cfg pl file_name st =
     (case open_image (map_of (jpg_dir st)) file_name of
        Inl e \<Rightarrow> Inl (e, st)
      | Inr first_img \<Rightarrow>
         (case index (slow_change_options pl) 0 of
            Inl e \<Rightarrow> Inl (e, st)
          | Inr c0 \<Rightarrow>
             (case index (slow_change_options pl) 1 of
                Inl e \<Rightarrow> Inl (e, st)
              | Inr c1 \<Rightarrow>
                 (case open_image (map_of (jpg_dir st)) (re_sub c0 c1 file_name) of
                    Inl e \<Rightarrow> Inl (e, st)
                  | Inr second_img \<Rightarrow>
                     for_each (save_morph_step cfg c0 file_name first_img second_img)
                       [0..<Suc (number_of_morph_steps cfg)] st))))"

text \<open>Lines 99-115.\<close>

definition make_color_morphs :: "config \<Rightarrow> plan \<Rightarrow> state \<Rightarrow> state result" where
  "make_color_morphs cfg pl st =
     (case filter_raise (is_first_slow_option pl) (these_file_names pl) of
        Inl e \<Rightarrow> Inl (e, st)
      | Inr file_names_first_slow_option \<Rightarrow>
         for_each (morph_file cfg pl) file_names_first_slow_option st)"

subsection \<open>Step 3: the route through the frames\<close>

text \<open>Lines 118-122.\<close>

definition quick_change_frames :: "config \<Rightarrow> plan \<Rightarrow> randomness \<Rightarrow> int list" where
  "quick_change_frames cfg pl rnd =
     map (\<lambda>i. new_change_moment_frame cfg i (nat (num_quick_changes pl)) (rand rnd i))
       [0..<nat (num_quick_changes pl)]"

text \<open>Lines 127-130: the name with every change in its first state.\<close>

definition initial_filename :: "plan \<Rightarrow> nat \<Rightarrow> error + string" where
  "initial_filename pl curr_frame_index =
     (case map_raise (\<lambda>pair. index pair 0) (quick_changes_in_name_order pl) of
        Inl e \<Rightarrow> Inl e
      | Inr firsts \<Rightarrow>
         Inr (filename_root pl @ ''_morph'' @ str_nat curr_frame_index
              @ concat (map (\<lambda>v. ''_'' @ v) firsts) @ ''.jpg''))"

definition half_window :: "config \<Rightarrow> int" where
  "half_window cfg = int (quick_change_length_frames cfg div 2)"

text \<open>Line 144.\<close>

definition change_count :: "config \<Rightarrow> int \<Rightarrow> nat \<Rightarrow> rat" where
  "change_count cfg onset curr_frame_index =
     of_int onset + of_nat (quick_change_length_frames cfg) / 2 - of_nat curr_frame_index"

text \<open>Lines 138-158: one quick change applied to the name chosen so far.\<close>

definition apply_quick_change ::
  "config \<Rightarrow> int list \<Rightarrow> nat \<Rightarrow> nat \<times> string list \<Rightarrow> string \<Rightarrow> state \<Rightarrow> (string \<times> state) result" where
  "apply_quick_change cfg qcf curr_frame_index change this_filename st =
     (case change of (change_idx, quick_change_option_pair) \<Rightarrow>
      (case index qcf change_idx of
         Inl e \<Rightarrow> Inl (e, st)
       | Inr onset \<Rightarrow>
          if int curr_frame_index \<ge> onset - half_window cfg
             \<and> int curr_frame_index < onset + half_window cfg
          then
            (case index quick_change_option_pair 0 of
               Inl e \<Rightarrow> Inl (e, st)
             | Inr p0 \<Rightarrow>
            (case index quick_change_option_pair 1 of
               Inl e \<Rightarrow> Inl (e, st)
             | Inr p1 \<Rightarrow>
            (case open_image (temp_dir st) this_filename of
               Inl e \<Rightarrow> Inl (e, st)
             | Inr image_quick_changeA \<Rightarrow>
            (case open_image (temp_dir st) (re_sub p0 p1 this_filename) of
               Inl e \<Rightarrow> Inl (e, st)
             | Inr image_quick_changeB \<Rightarrow>
            (case quick_change_morph cfg image_quick_changeA image_quick_changeB
                    (change_count cfg onset curr_frame_index) of
               Inl e \<Rightarrow> Inl (e, st)
             | Inr morph \<Rightarrow>
                Inr (re_sub p0 ''avg'' this_filename,
                     st\<lparr>temp_dir := (temp_dir st)(re_sub p0 ''avg'' this_filename \<mapsto> morph)\<rparr>))))))
          else if int curr_frame_index \<ge> onset + half_window cfg
          then
            (case index quick_change_option_pair 0 of
               Inl e \<Rightarrow> Inl (e, st)
             | Inr p0 \<Rightarrow>
            (case index quick_change_option_pair 1 of
               Inl e \<Rightarrow> Inl (e, st)
             | Inr p1 \<Rightarrow> Inr (re_sub p0 p1 this_filename, st)))
          else Inr (this_filename, st)))"

text \<open>Line 133: the loop over the changes, in their shuffled order.\<close>

fun quick_change_loop ::
  "config \<Rightarrow> int list \<Rightarrow> nat \<Rightarrow> (nat \<times> string list) list \<Rightarrow> string \<Rightarrow> state
     \<Rightarrow> (string \<times> state) result" where
  "quick_change_loop cfg qcf k [] this_filename st = Inr (this_filename, st)"
| "quick_change_loop cfg qcf k (change # changes) this_filename st =
     (case apply_quick_change cfg qcf k change this_filename st of
        Inl e \<Rightarrow> Inl e
      | Inr (name, st') \<Rightarrow> quick_change_loop cfg qcf k changes name st')"

definition frame_name :: "plan \<Rightarrow> nat \<Rightarrow> string" where
  "frame_name pl k = filename_root pl @ ''_morph'' @ str_nat k @ ''.tif''"

text \<open>Lines 127-167: one frame of the final sequence.\<close>

definition make_frame ::
  "config \<Rightarrow> environment \<Rightarrow> plan \<Rightarrow> int list \<Rightarrow> nat \<Rightarrow> state \<Rightarrow> state result" where
  "make_frame cfg env pl qcf curr_frame_index st =
     (case initial_filename pl curr_frame_index of
        Inl e \<Rightarrow> Inl (e, st)
      | Inr name \<Rightarrow>
         (case quick_change_loop cfg qcf curr_frame_index
                 (enumerate 0 (all_quick_change_options pl)) name st of
            Inl e \<Rightarrow> Inl e
          | Inr (this_filename, st') \<Rightarrow>
             (case open_image (temp_dir st') this_filename of
                Inl e \<Rightarrow> Inl (e, st')
              | Inr img \<Rightarrow>
                 Inr (st'\<lparr>morph_dir := (morph_dir st')
                            (frame_name pl curr_frame_index
                               \<mapsto> normalize_frame (resample env) img),
                          image_data_this_frame := Some (normalize_frame (resample env) img)\<rparr>))))"

text \<open>Lines 124-167.\<close>

definition select_frames ::
  "config \<Rightarrow> environment \<Rightarrow> plan \<Rightarrow> int list \<Rightarrow> state \<Rightarrow> state result" where
  "select_frames cfg env pl qcf st =
     for_each (make_frame cfg env pl qcf) [0..<Suc (number_of_morph_steps cfg)] st"

text \<open>Steps 2 and 3 together, for given onset frames and for drawn ones.\<close>

definition synthesize_with ::
  "config \<Rightarrow> environment \<Rightarrow> plan \<Rightarrow> int list \<Rightarrow> state \<Rightarrow> state result" where
  "synthesize_with cfg env pl qcf st =
     (case make_color_morphs cfg pl st of
        Inl e \<Rightarrow> Inl e
      | Inr st' \<Rightarrow> select_frames cfg env pl qcf st')"

definition synthesize ::
  "config \<Rightarrow> environment \<Rightarrow> randomness \<Rightarrow> plan \<Rightarrow> state \<Rightarrow> state result" where
  "synthesize cfg env rnd pl st = synthesize_with cfg env pl (quick_change_frames cfg pl rnd) st"

subsection \<open>Steps 4 and 5: the video and the cleanup\<close>

definition quote :: string where
  "quote = [CHR 0x27]"

text \<open>\<open>os.path.join\<close> of a directory and a plain file name.\<close>

definition path_join :: "string \<Rightarrow> string \<Rightarrow> string" where
  "path_join dir name =
     (if dir = [] \<or> last dir = CHR ''/'' then dir @ name else dir @ ''/'' @ name)"

text \<open>Lines 178-182: the lines appended to makeVideo.txt.\<close>

definition video_list :: "config \<Rightarrow> plan \<Rightarrow> string" where
  "video_list cfg pl =
     concat (replicate (no_change_in_frames cfg)
       (''file '' @ quote @ morph_path cfg @ ''/'' @ filename_root pl @ ''_morph0.tif''
        @ quote @ newline))
     @ ''file '' @ quote @ filename_root pl @ ''_morph%d.tif'' @ quote @ newline
     @ concat (replicate (no_change_in_frames cfg)
       (''file '' @ quote @ morph_path cfg @ ''/'' @ filename_root pl @ ''_morph''
        @ str_nat (number_of_morph_steps cfg) @ ''.tif'' @ quote @ newline))"

text \<open>Lines 184-189.\<close>

definition my_shell_command :: "config \<Rightarrow> plan \<Rightarrow> image \<Rightarrow> string" where
  "my_shell_command cfg pl last_frame =
     ffmpeg_path cfg @ '' -r '' @ str_nat (steps_per_second_video cfg)
     @ '' -f concat -safe 0 -i '' @ path_join (morph_path cfg) ''makeVideo.txt''
     @ '' -vcodec libx264 -crf 25 -pix_fmt yuv420p ''
     @ path_join (output_path cfg)
         (filename_root pl @ ''_'' @ filter (\<lambda>c. c \<noteq> CHR ''_'') (color cfg) @ ''.mp4'')
     @ '' -video_size '' @ str_nat (fst (shape last_frame)) @ ''x''
     @ str_nat (snd (shape last_frame))
     @ '' -frame_drop_threshold -3.1 -codec:v prores -qscale 2''"

text \<open>
  Lines 171-192. The frame loop always runs at least once, so the variable
  \<open>image_data_this_frame\<close> is bound when it is read; the other branch leaves the state as
  it is. Whatever the encoder answers is printed, and the script goes on.
\<close>

definition encode_video :: "config \<Rightarrow> environment \<Rightarrow> plan \<Rightarrow> state \<Rightarrow> state" where
  "encode_video cfg env pl st =
     (let st1 = st\<lparr>makeVideo := append_start (makeVideo st) @ video_list cfg pl\<rparr> in
      case image_data_this_frame st1 of
        None \<Rightarrow> st1
      | Some last_frame \<Rightarrow>
         st1\<lparr>commands_run := commands_run st1 @ [my_shell_command cfg pl last_frame],
             stdout := stdout st1 @
               [''Attempt to turn frames into a movie returned the following reply: ''
                @ ffmpeg env (my_shell_command cfg pl last_frame) (makeVideo st1) (morph_dir st1)]\<rparr>)"

text \<open>Lines 196-203.\<close>

definition cleanup :: "state \<Rightarrow> state" where
  "cleanup st =
     st\<lparr>temp_dir := Map.empty,
        morph_dir := (\<lambda>name. if sublist ''.tif'' name then None else morph_dir st name),
        makeVideo := []\<rparr>"

subsection \<open>One scene, and all of them\<close>

text \<open>Lines 63-203: the body of the loop over the scenes.\<close>

definition process_scene ::
  "config \<Rightarrow> environment \<Rightarrow> randomness \<Rightarrow> string \<Rightarrow> state \<Rightarrow> state result" where
  "process_scene cfg env rnd root_name st =
     (let st0 = st\<lparr>stdout := stdout st @ [''working on file '' @ root_name]\<rparr> in
      case scene_setup cfg env rnd st0 root_name of
        Inl e \<Rightarrow> Inl (e, st0)
      | Inr pl \<Rightarrow>
         (case write_readme pl st0 of
            Inl e \<Rightarrow> Inl e
          | Inr st1 \<Rightarrow>
             (case synthesize cfg env rnd pl st1 of
                Inl e \<Rightarrow> Inl e
              | Inr st2 \<Rightarrow> Inr (cleanup (encode_video cfg env pl st2)))))"



subsection \<open>Example inputs\<close>

text \<open>A nearest-neighbour resampling filter, an environment and an empty world.\<close>

definition nearest :: resampler where
  "nearest sz img y x =
     img ! (y * fst (shape img) div snd sz) ! (x * snd (shape img) div fst sz)"

definition example_env :: environment where
  "example_env =
     \<lparr> set_order = remdups, resample = nearest, ffmpeg = (\<lambda>command text frames. []) \<rparr>"

definition empty_state :: state where
  "empty_state = \<lparr> jpg_dir = [], temp_dir = Map.empty, morph_dir = Map.empty, readme = [],
     makeVideo = [], stdout = [], commands_run = [], image_data_this_frame = None \<rparr>"

text \<open>A plan without quick changes.\<close>

definition plain_plan :: plan where
  "plain_plan = \<lparr> filename_root = ''Img01'', these_file_names = [],
     slow_change_options = [''Yellow'', ''Orange''], num_quick_changes = 0,
     all_quick_change_options = [], quick_changes_in_name_order = [] \<rparr>"

subsection \<open>Notions used in the proofs\<close>

text \<open>The state in which a run of a step ends, whether it raised or not.\<close>

definition final_state :: "state result \<Rightarrow> state" where
  "final_state res = (case res of Inl (e, st) \<Rightarrow> st | Inr st \<Rightarrow> st)"





definition plain_scene_state :: state where
  "plain_scene_state = empty_state\<lparr>jpg_dir :=
     [(''Img01_Yellow.jpg'', [[(250, 220, 10), (250, 220, 10)], [(250, 220, 10), (250, 220, 10)]]),
      (''Img01_Orange.jpg'', [[(250, 140, 10), (250, 140, 10)], [(250, 140, 10), (250, 140, 10)]])]\<rparr>"



text \<open>The state in which the loop over the quick changes ends.\<close>

definition loop_state :: "(string \<times> state) result \<Rightarrow> state" where
  "loop_state res = (case res of Inl (e, st) \<Rightarrow> st | Inr (name, st) \<Rightarrow> st)"











section \<open>Properties\<close>

subsection \<open>Arrays of equal shape\<close>

lemma shape_times_scalar: "shape (times_scalar a w) = shape a"
  by (cases a) (simp_all add: shape_def times_scalar_def)

lemma rectangular_times_scalar: "rectangular (times_scalar a w) = rectangular a"
  by (simp add: rectangular_def shape_times_scalar list_all_iff) (simp add: times_scalar_def)

lemma stretch_same: "length xs = n \<Longrightarrow> stretch n xs = xs"
  by (simp add: stretch_def)

lemma rectangular_rows: "rectangular a \<Longrightarrow> r \<in> set a \<Longrightarrow> length r = snd (shape a)"
  by (simp add: rectangular_def list_all_iff)

lemma stretch_rows_same: "rectangular a \<Longrightarrow> map (stretch (snd (shape a))) a = a"
  by (simp add: map_idI rectangular_rows stretch_same)

lemma add_arrays_same_shape:
  assumes "shape a = shape b" "rectangular a" "rectangular b"
  shows "add_arrays a b = Inr (map2 (map2 add_fpixel) a b)"
  using assms stretch_rows_same[of a] stretch_rows_same[of b]
  by (simp add: add_arrays_def broadcast_dim_def stretch_same shape_def)

lemma map_map2_maps:
  "map k (map2 h (map f r) (map g s)) = map2 (\<lambda>x y. k (h (f x) (g y))) r s"
proof (induction r arbitrary: s)
  case Nil then show ?case by simp
next
  case (Cons x r) then show ?case by (cases s) simp_all
qed

lemma map_map2_maps_rows:
  "map (map k) (map2 (map2 h) (map (map f) a) (map (map g) b))
   = map2 (map2 (\<lambda>x y. k (h (f x) (g y)))) a b"
proof (induction a arbitrary: b)
  case Nil then show ?case by simp
next
  case (Cons x a)
  show ?case
  proof (cases b)
    case Nil then show ?thesis by simp
  next
    case (Cons y b')
    have "map k (map2 h (map f x) (map g y)) = map2 (\<lambda>x y. k (h (f x) (g y))) x y"
      by (rule map_map2_maps)
    moreover have "map (map k) (map2 (map2 h) (map (map f) a) (map (map g) b'))
       = map2 (map2 (\<lambda>x y. k (h (f x) (g y)))) a b'"
      by (rule Cons.IH)
    ultimately show ?thesis using Cons by simp
  qed
qed

lemma weighted_average_same_shape:
  assumes "shape a = shape b" "rectangular a" "rectangular b"
  shows "weighted_average a wa b wb = Inr (map2 (map2 (blend_pixel wa wb)) a b)"
proof -
  have "add_arrays (times_scalar a wa) (times_scalar b wb)
        = Inr (map2 (map2 add_fpixel) (times_scalar a wa) (times_scalar b wb))"
    using assms
    by (intro add_arrays_same_shape) (simp_all add: shape_times_scalar rectangular_times_scalar)
  moreover have "map (map uint8_pixel)
       (map2 (map2 add_fpixel) (map (map (scale_pixel wa)) a) (map (map (scale_pixel wb)) b))
     = map2 (map2 (\<lambda>x y. uint8_pixel (add_fpixel (scale_pixel wa x) (scale_pixel wb y)))) a b"
    by (rule map_map2_maps_rows)
  ultimately show ?thesis
    unfolding weighted_average_def astype_uint8_def times_scalar_def blend_pixel_def
    by simp
qed

lemma shape_map2_rows:
  assumes "shape a = shape b"
  shows "shape (map2 (map2 f) a b) = shape a"
proof (cases a)
  case Nil then show ?thesis by (simp add: shape_def)
next
  case (Cons r a')
  with assms obtain s b' where b: "b = s # b'" "length s = length r" "length b' = length a'"
    by (cases b) (auto simp: shape_def)
  show ?thesis using Cons b by (simp add: shape_def)
qed

lemma rectangular_map2_rows:
  assumes "shape a = shape b" "rectangular a" "rectangular b"
  shows "rectangular (map2 (map2 f) a b)"
proof -
  have "length (map2 f x y) = snd (shape a)" if "(x, y) \<in> set (zip a b)" for x y
  proof -
    have "x \<in> set a" "y \<in> set b" using that by (auto dest: set_zip_leftD set_zip_rightD)
    then have "length x = snd (shape a)" "length y = snd (shape a)"
      using assms by (simp_all add: rectangular_rows)
    then show ?thesis by simp
  qed
  then show ?thesis
    unfolding rectangular_def shape_map2_rows[OF assms(1)] list_all_iff by auto
qed

lemma weighted_average_shape:
  assumes "shape a = shape b" "rectangular a" "rectangular b"
  shows "\<exists>img. weighted_average a wa b wb = Inr img \<and> shape img = shape a \<and> rectangular img"
proof -
  have "shape (map2 (map2 (blend_pixel wa wb)) a b) = shape a"
    by (rule shape_map2_rows[OF assms(1)])
  moreover have "rectangular (map2 (map2 (blend_pixel wa wb)) a b)"
    by (rule rectangular_map2_rows[OF assms])
  ultimately show ?thesis
    unfolding weighted_average_same_shape[OF assms] by blast
qed

subsection \<open>The weights 0 and 1\<close>

lemma py_int_of_nat: "py_int (of_nat n) = int n"
  by (simp add: py_int_def)

lemma to_uint8_unat: "to_uint8 (of_nat (unat (c :: 8 word))) = c"
  unfolding to_uint8_def py_int_of_nat by simp

lemma blend_pixel_first: "blend_pixel 1 0 p q = p"
  using to_uint8_unat
  by (cases p; cases q)
     (simp add: blend_pixel_def uint8_pixel_def add_fpixel_def scale_pixel_def del: of_nat_unat)

lemma blend_pixel_second: "blend_pixel 0 1 p q = q"
  using to_uint8_unat
  by (cases p; cases q)
     (simp add: blend_pixel_def uint8_pixel_def add_fpixel_def scale_pixel_def del: of_nat_unat)

lemma map2_fst_id:
  "length xs = length ys \<Longrightarrow> (\<And>x y. x \<in> set xs \<Longrightarrow> y \<in> set ys \<Longrightarrow> f x y = x)
   \<Longrightarrow> map2 f xs ys = xs"
  by (induction xs ys rule: list_induct2) auto

lemma map2_snd_id:
  "length xs = length ys \<Longrightarrow> (\<And>x y. x \<in> set xs \<Longrightarrow> y \<in> set ys \<Longrightarrow> f x y = y)
   \<Longrightarrow> map2 f xs ys = ys"
  by (induction xs ys rule: list_induct2) auto

lemma weighted_average_first:
  assumes "shape a = shape b" "rectangular a" "rectangular b"
  shows "weighted_average a 1 b 0 = Inr a"
proof -
  have len: "length a = length b" using assms(1) by (simp add: shape_def)
  have rows: "\<And>x y. x \<in> set a \<Longrightarrow> y \<in> set b \<Longrightarrow> length x = length y"
    using assms by (simp add: rectangular_rows)
  have "map2 (map2 (blend_pixel 1 0)) a b = a"
    by (rule map2_fst_id[OF len]) (rule map2_fst_id, erule (1) rows, rule blend_pixel_first)
  then show ?thesis
    unfolding weighted_average_same_shape[OF assms] by simp
qed

lemma weighted_average_second:
  assumes "shape a = shape b" "rectangular a" "rectangular b"
  shows "weighted_average a 0 b 1 = Inr b"
proof -
  have len: "length a = length b" using assms(1) by (simp add: shape_def)
  have rows: "\<And>x y. x \<in> set a \<Longrightarrow> y \<in> set b \<Longrightarrow> length x = length y"
    using assms by (simp add: rectangular_rows)
  have "map2 (map2 (blend_pixel 0 1)) a b = b"
    by (rule map2_snd_id[OF len]) (rule map2_snd_id, erule (1) rows, rule blend_pixel_second)
  then show ?thesis
    unfolding weighted_average_same_shape[OF assms] by simp
qed

lemma image_data_morph_spec_blend:
  "0 < number_of_morph_steps cfg \<Longrightarrow>
   image_data_morph cfg a b k = spec_blend a b (of_nat k / of_nat (number_of_morph_steps cfg))"
  by (simp add: image_data_morph_def spec_blend_def field_simps)

lemma quick_change_morph_spec_blend:
  "quick_change_morph cfg a b c = spec_blend a b (1 - change_step cfg * c)"
  by (simp add: quick_change_morph_def spec_blend_def)

text \<open>
  C4. For images of equal shape the blend with weight 0 is the first image and the blend
  with weight 1 is the second, exactly, and for every weight the result has the shape of
  both. The two blends of the script are this blend: the colour morph at step \<open>k\<close> has
  weight \<open>k / number_of_morph_steps\<close>, so it is the first image at step 0 and the second at
  the last step; the quick-change morph has weight \<open>1 - change_step * count\<close>.
\<close>

theorem blend_endpoints_and_shape:
  assumes "shape a = shape b" "rectangular a" "rectangular b" "0 < number_of_morph_steps cfg"
  shows "spec_blend a b 0 = Inr a \<and> spec_blend a b 1 = Inr b
       \<and> (\<forall>w. \<exists>img. spec_blend a b w = Inr img \<and> shape img = shape a \<and> shape img = shape b)
       \<and> (\<forall>k. image_data_morph cfg a b k
                 = spec_blend a b (of_nat k / of_nat (number_of_morph_steps cfg)))
       \<and> (\<forall>c. quick_change_morph cfg a b c = spec_blend a b (1 - change_step cfg * c))
       \<and> image_data_morph cfg a b 0 = Inr a
       \<and> image_data_morph cfg a b (number_of_morph_steps cfg) = Inr b"
proof -
  have first: "spec_blend a b 0 = Inr a"
    using weighted_average_first[OF assms(1-3)] by (simp add: spec_blend_def)
  have second: "spec_blend a b 1 = Inr b"
    using weighted_average_second[OF assms(1-3)] by (simp add: spec_blend_def)
  have dims: "\<exists>img. spec_blend a b w = Inr img \<and> shape img = shape a \<and> shape img = shape b" for w
    using weighted_average_shape[OF assms(1-3), of "1 - w" w] assms(1) by (auto simp: spec_blend_def)
  have morph: "image_data_morph cfg a b k
                 = spec_blend a b (of_nat k / of_nat (number_of_morph_steps cfg))" for k
    by (rule image_data_morph_spec_blend[OF assms(4)])
  have "image_data_morph cfg a b 0 = Inr a"
    using first by (simp add: morph)
  moreover have "image_data_morph cfg a b (number_of_morph_steps cfg) = Inr b"
    using second assms(4) by (simp add: morph)
  ultimately show ?thesis
    using first second dims morph quick_change_morph_spec_blend by blast
qed

theorem blend_endpoints_and_shape_witness:
  "shape [[(10, 20, 30)]] = shape [[(40, 50, 60)]]
   \<and> rectangular [[(10, 20, 30) :: pixel]] \<and> rectangular [[(40, 50, 60) :: pixel]]
   \<and> 0 < number_of_morph_steps default_config
   \<and> image_data_morph default_config [[(10, 20, 30)]] [[(40, 50, 60)]] 0 = Inr [[(10, 20, 30)]]
   \<and> image_data_morph default_config [[(10, 20, 30)]] [[(40, 50, 60)]] 192
        = Inr [[(40, 50, 60)]]"
  using blend_endpoints_and_shape[of "[[(10, 20, 30)]]" "[[(40, 50, 60)]]" default_config]
  by (simp add: shape_def rectangular_def number_of_morph_steps_def default_config_def)

subsection \<open>Shapes that do not agree\<close>

lemma length_stretch: "length (stretch n xs) = n"
  by (simp add: stretch_def)

lemma set_stretch: "xs \<noteq> [] \<Longrightarrow> set (stretch n xs) \<subseteq> set xs"
  by (cases xs) (auto simp: stretch_def)

lemma shape_broadcast_rows:
  assumes "0 < h" "a \<noteq> []" "b \<noteq> []"
  shows "shape (map2 (map2 f) (stretch h (map (stretch w) a)) (stretch h (map (stretch w) b)))
         = (h, w)"
proof -
  let ?A = "stretch h (map (stretch w) a)" and ?B = "stretch h (map (stretch w) b)"
  obtain x A' where A: "?A = x # A'" using assms(1) length_stretch[of h "map (stretch w) a"]
    by (cases ?A) auto
  obtain y B' where B: "?B = y # B'" using assms(1) length_stretch[of h "map (stretch w) b"]
    by (cases ?B) auto
  have "x \<in> set (map (stretch w) a)"
    using set_stretch[of "map (stretch w) a" h] assms(2) A by auto
  then have x: "length x = w" by (auto simp: length_stretch)
  have "y \<in> set (map (stretch w) b)"
    using set_stretch[of "map (stretch w) b" h] assms(3) B by auto
  then have y: "length y = w" by (auto simp: length_stretch)
  have "length A' = h - 1" "length B' = h - 1"
    using A B length_stretch[of h "map (stretch w) a"] length_stretch[of h "map (stretch w) b"]
    by simp_all
  then show ?thesis
    using assms(1) unfolding A B by (simp add: shape_def x y)
qed

lemma broadcast_dim_compatible:
  assumes "m = n \<or> m = 1 \<or> n = 1" "0 < m" "0 < n"
  shows "broadcast_dim m n = Inr (max m n)"
  using assms by (auto simp: broadcast_dim_def)

lemma broadcast_dim_incompatible:
  assumes "m \<noteq> n" "m \<noteq> 1" "n \<noteq> 1"
  shows "broadcast_dim m n = Inl ValueError"
  using assms by (simp add: broadcast_dim_def)

lemma broadcast_dim_error: "broadcast_dim m n = Inl e \<Longrightarrow> e = ValueError"
  by (auto simp: broadcast_dim_def split: if_splits)

lemma add_arrays_incompatible:
  assumes "(fst (shape a) \<noteq> fst (shape b) \<and> fst (shape a) \<noteq> 1 \<and> fst (shape b) \<noteq> 1)
         \<or> (snd (shape a) \<noteq> snd (shape b) \<and> snd (shape a) \<noteq> 1 \<and> snd (shape b) \<noteq> 1)"
  shows "add_arrays a b = Inl ValueError"
  using assms
  by (auto simp: add_arrays_def broadcast_dim_incompatible split: sum.splits
           dest: broadcast_dim_error)

lemma weighted_average_incompatible:
  assumes "(fst (shape a) \<noteq> fst (shape b) \<and> fst (shape a) \<noteq> 1 \<and> fst (shape b) \<noteq> 1)
         \<or> (snd (shape a) \<noteq> snd (shape b) \<and> snd (shape a) \<noteq> 1 \<and> snd (shape b) \<noteq> 1)"
  shows "weighted_average a wa b wb = Inl ValueError"
proof -
  have "add_arrays (times_scalar a wa) (times_scalar b wb) = Inl ValueError"
    by (rule add_arrays_incompatible) (use assms in \<open>simp add: shape_times_scalar\<close>)
  then show ?thesis by (simp add: weighted_average_def)
qed

text \<open>
  Extents that agree or of which one is 1 are broadcast: the weighted sum returns an image
  of the larger extents.
\<close>

lemma weighted_average_compatible:
  assumes "valid_image a" "valid_image b"
    and "fst (shape a) = fst (shape b) \<or> fst (shape a) = 1 \<or> fst (shape b) = 1"
    and "snd (shape a) = snd (shape b) \<or> snd (shape a) = 1 \<or> snd (shape b) = 1"
  shows "\<exists>img. weighted_average a wa b wb = Inr img
           \<and> shape img = (max (fst (shape a)) (fst (shape b)), max (snd (shape a)) (snd (shape b)))"
proof -
  let ?h = "max (fst (shape a)) (fst (shape b))" and ?w = "max (snd (shape a)) (snd (shape b))"
  have pos: "0 < fst (shape a)" "0 < fst (shape b)" "0 < snd (shape a)" "0 < snd (shape b)"
    using assms(1,2) by (simp_all add: valid_image_def)
  have ne: "times_scalar a wa \<noteq> []" "times_scalar b wb \<noteq> []"
    using pos by (auto simp: times_scalar_def shape_def)
  have h: "broadcast_dim (fst (shape (times_scalar a wa))) (fst (shape (times_scalar b wb)))
             = Inr ?h"
    unfolding shape_times_scalar using assms(3) pos by (intro broadcast_dim_compatible)
  have w: "broadcast_dim (snd (shape (times_scalar a wa))) (snd (shape (times_scalar b wb)))
             = Inr ?w"
    unfolding shape_times_scalar using assms(4) pos by (intro broadcast_dim_compatible)
  have sum: "add_arrays (times_scalar a wa) (times_scalar b wb)
      = Inr (map2 (map2 add_fpixel) (stretch ?h (map (stretch ?w) (times_scalar a wa)))
                                    (stretch ?h (map (stretch ?w) (times_scalar b wb))))"
    by (simp add: add_arrays_def h w)
  have "shape (astype_uint8 s) = shape s" for s
    by (cases s) (simp_all add: astype_uint8_def shape_def)
  moreover have
    "shape (map2 (map2 add_fpixel) (stretch ?h (map (stretch ?w) (times_scalar a wa)))
                                   (stretch ?h (map (stretch ?w) (times_scalar b wb))))
       = (?h, ?w)"
    using pos ne by (intro shape_broadcast_rows) auto
  ultimately show ?thesis
    unfolding weighted_average_def sum by simp
qed

text \<open>
  C5, as the script has it. When the heights of the two images differ and neither is 1,
  or their widths differ and neither is 1, both blends of the script raise ValueError and
  produce no image. (Extents that differ with one of them 1 are broadcast instead, see
  \<open>weighted_average_compatible\<close>.)
\<close>

theorem blend_incompatible_shapes_raise:
  assumes "(fst (shape a) \<noteq> fst (shape b) \<and> fst (shape a) \<noteq> 1 \<and> fst (shape b) \<noteq> 1)
         \<or> (snd (shape a) \<noteq> snd (shape b) \<and> snd (shape a) \<noteq> 1 \<and> snd (shape b) \<noteq> 1)"
    and "0 < number_of_morph_steps cfg"
  shows "image_data_morph cfg a b k = Inl ValueError
       \<and> quick_change_morph cfg a b c = Inl ValueError"
  using assms(2) weighted_average_incompatible[OF assms(1)]
  by (simp add: image_data_morph_def quick_change_morph_def)

theorem blend_incompatible_shapes_raise_witness:
  "fst (shape [[(1, 2, 3) :: pixel], [(4, 5, 6)]])
      \<noteq> fst (shape [[(7, 8, 9) :: pixel], [(7, 8, 9)], [(7, 8, 9)]])
   \<and> fst (shape [[(1, 2, 3) :: pixel], [(4, 5, 6)]]) \<noteq> 1
   \<and> fst (shape [[(7, 8, 9) :: pixel], [(7, 8, 9)], [(7, 8, 9)]]) \<noteq> 1
   \<and> 0 < number_of_morph_steps default_config
   \<and> image_data_morph default_config [[(1, 2, 3)], [(4, 5, 6)]]
        [[(7, 8, 9)], [(7, 8, 9)], [(7, 8, 9)]] 5 = Inl ValueError
   \<and> quick_change_morph default_config [[(1, 2, 3)], [(4, 5, 6)]]
        [[(7, 8, 9)], [(7, 8, 9)], [(7, 8, 9)]] 3 = Inl ValueError"
  using blend_incompatible_shapes_raise[of "[[(1, 2, 3)], [(4, 5, 6)]]"
      "[[(7, 8, 9)], [(7, 8, 9)], [(7, 8, 9)]]" default_config 5 3]
  by (simp add: shape_def number_of_morph_steps_def default_config_def)

text \<open>
  C5 as stated fails: an image of one row and an image of two rows have different
  dimensions, and their blend is an image of two rows, not a failure.
\<close>

theorem blend_broadcasts_unit_extent:
  "quick_change_morph default_config [[(10, 10, 10)]] [[(20, 20, 20)], [(30, 30, 30)]] 1
   = Inr [[(19, 19, 19)], [(28, 28, 28)]]"
  by code_simp

subsection \<open>Even dimensions\<close>

lemma shape_resized:
  "0 < h \<Longrightarrow> shape (map (\<lambda>y. map (f y) [0..<w]) [0..<h]) = (h, w)"
  by (cases h) (simp_all add: shape_def upt_conv_Cons del: upt_Suc)

lemma size_of_resize:
  assumes "snd sz = 0 \<longrightarrow> size_of img = sz"
  shows "size_of (resize rs sz img) = sz"
proof (cases "size_of img = sz")
  case True then show ?thesis by (simp add: resize_def)
next
  case False
  with assms have "0 < snd sz" by auto
  then show ?thesis using False
    by (simp add: resize_def size_of_def shape_resized)
qed

lemma size_of_empty_rows: "snd (size_of a) = 0 \<Longrightarrow> size_of a = (0, 0)"
  by (cases a) (simp_all add: size_of_def shape_def)

lemma size_of_normalize_frame:
  "size_of (normalize_frame rs img) = (even_up (fst (size_of img)), even_up (snd (size_of img)))"
proof -
  obtain w h where wh: "size_of img = (w, h)" by (cases "size_of img")
  have "even_up h = 0 \<longrightarrow> size_of img = (even_up w, even_up h)"
    using wh size_of_empty_rows[of img] by (auto simp: even_up_def split: if_splits)
  then show ?thesis
    using wh by (simp add: normalize_frame_def size_of_resize)
qed

lemma even_up_props: "even (even_up n) \<and> n \<le> even_up n \<and> even_up n \<le> n + 1"
  by (auto simp: even_up_def)

lemma str_nat_0: "str_nat 0 = ''0''"
  by (simp add: str_nat.simps digit_char_def)

text \<open>
  C8. A frame that the frame loop writes for the encoder is the chosen temporary image
  after \<open>normalize_frame\<close>: its width and its height are even, and each is the chosen
  image's or one more.
\<close>

theorem emitted_frame_even_size:
  assumes "make_frame cfg env pl qcf k st = Inr st'"
  shows "\<exists>this_filename img.
           temp_dir st' this_filename = Some img
         \<and> morph_dir st' (frame_name pl k) = Some (normalize_frame (resample env) img)
         \<and> even (fst (size_of (normalize_frame (resample env) img)))
         \<and> even (snd (size_of (normalize_frame (resample env) img)))
         \<and> fst (size_of img) \<le> fst (size_of (normalize_frame (resample env) img))
         \<and> fst (size_of (normalize_frame (resample env) img)) \<le> fst (size_of img) + 1
         \<and> snd (size_of img) \<le> snd (size_of (normalize_frame (resample env) img))
         \<and> snd (size_of (normalize_frame (resample env) img)) \<le> snd (size_of img) + 1"
proof -
  from assms obtain name this_filename st1 img where
    sel: "quick_change_loop cfg qcf k (enumerate 0 (all_quick_change_options pl)) name st
            = Inr (this_filename, st1)"
    and op: "open_image (temp_dir st1) this_filename = Inr img"
    and st': "st' = st1\<lparr>morph_dir := (morph_dir st1)
                            (frame_name pl k \<mapsto> normalize_frame (resample env) img),
                          image_data_this_frame := Some (normalize_frame (resample env) img)\<rparr>"
    by (auto simp: make_frame_def split: sum.splits prod.splits)
  from op have "temp_dir st1 this_filename = Some img"
    by (simp add: open_image_def split: option.splits)
  then have "temp_dir st' this_filename = Some img"
    and "morph_dir st' (frame_name pl k) = Some (normalize_frame (resample env) img)"
    by (simp_all add: st')
  then show ?thesis
    using even_up_props[of "fst (size_of img)"] even_up_props[of "snd (size_of img)"]
    unfolding size_of_normalize_frame by (intro exI[of _ this_filename] exI[of _ img]) simp
qed

theorem emitted_frame_even_size_witness:
  "\<exists>st'. make_frame default_config example_env plain_plan [] 0
            (empty_state\<lparr>temp_dir := [''Img01_morph0.jpg'' \<mapsto> [[(10, 20, 30)]]]\<rparr>) = Inr st'
     \<and> morph_dir st' ''Img01_morph0.tif''
         = Some (normalize_frame nearest [[(10, 20, 30)]])
     \<and> size_of (normalize_frame nearest [[(10, 20, 30)]]) = (2, 2)"
proof -
  let ?st = "empty_state\<lparr>temp_dir := [''Img01_morph0.jpg'' \<mapsto> [[(10, 20, 30)]]]\<rparr>"
  let ?out = "normalize_frame nearest [[(10, 20, 30)]]"
  have run: "make_frame default_config example_env plain_plan [] 0 ?st
     = Inr (?st\<lparr>morph_dir := (morph_dir ?st)(''Img01_morph0.tif'' \<mapsto> ?out),
                image_data_this_frame := Some ?out\<rparr>)"
    by (simp add: make_frame_def initial_filename_def plain_plan_def enumerate_eq_zip
        open_image_def frame_name_def example_env_def str_nat_0)
  have "size_of ?out = (2, 2)"
    by (subst size_of_normalize_frame) (simp add: size_of_def shape_def even_up_def)
  then show ?thesis
    using emitted_frame_even_size[OF run] run
    by (simp add: frame_name_def plain_plan_def str_nat_0)
qed

subsection \<open>Onset of a quick change\<close>





subsection \<open>Strings and file names\<close>






lemma split_no_sep: "c \<notin> set s \<Longrightarrow> split c s = [s]"
  by (induction s) auto


lemma split_not_Nil: "split c s \<noteq> []"
  by (induction s) (auto split: list.splits)








subsection \<open>The shuffles\<close>

lemma shuffle_Nil: "shuffle js [] = []"
  by (simp add: shuffle_def)

lemma shuffle_single: "shuffle js [x] = [x]"
  by (simp add: shuffle_def)

lemma shuffle_from_one:
  "shuffle_from js (Suc 0) [x, y] = (if js (Suc 0) mod Suc (Suc 0) = 0 then [y, x] else [x, y])"
proof -
  define j where "j = js (Suc 0) mod Suc (Suc 0)"
  have "j = 0 \<or> j = Suc 0" unfolding j_def by arith
  moreover have "shuffle_from js (Suc 0) [x, y] = [x, y][Suc 0 := [x, y] ! j, j := [x, y] ! Suc 0]"
    unfolding shuffle_from.simps j_def Let_def ..
  ultimately show ?thesis unfolding j_def[symmetric] by auto
qed

lemma shuffle_pair:
  "shuffle js [x, y] = (if js (Suc 0) mod Suc (Suc 0) = 0 then [y, x] else [x, y])"
  unfolding shuffle_def using shuffle_from_one[of js x y] by simp

subsection \<open>A scene without quick changes\<close>

text \<open>
  C2 on the script. The scene has the two stills \<open>Img01_Yellow.jpg\<close> and
  \<open>Img01_Orange.jpg\<close> and no feature segment in the names. The colour segment of such a
  name carries the extension (\<open>Orange.jpg\<close>), so line 99 finds no file of the first
  colour, step 2 writes no morph, and the frame loop fails on its first frame, whatever
  the random draws are: no frame is produced.
\<close>

theorem no_feature_scene_raises:
  "map_sum fst id (process_scene default_config example_env rnd ''Img01'' plain_scene_state)
   = Inl (FileNotFoundError ''Img01_morph0.jpg'')"
  by (simp add: process_scene_def scene_setup_def jpg_file_names_def plain_scene_state_def
      empty_state_def first_segment_def slow_change_pair_def segment_def index_def
      default_config_def shuffle_pair shuffle_Nil write_readme_def synthesize_def synthesize_with_def
      make_color_morphs_def is_first_slow_option_def quick_change_frames_def select_frames_def
      number_of_morph_steps_def make_frame_def initial_filename_def open_image_def str_nat_0
      upt_conv_Cons Let_def sublist_code
      del: upt_Suc)

subsection \<open>Substitution in file names\<close>







subsection \<open>What each step changes\<close>

lemma final_state_simps [simp]:
  "final_state (Inl (e, s)) = s" "final_state (Inr s) = s"
  by (simp_all add: final_state_def)

lemma for_each_final_rel:
  assumes refl: "\<And>s. R s s"
    and trans: "\<And>s s' s''. R s s' \<Longrightarrow> R s' s'' \<Longrightarrow> R s s''"
    and step: "\<And>x s. x \<in> set xs \<Longrightarrow> R s (final_state (body x s))"
  shows "R s (final_state (for_each body xs s))"
  using step
proof (induction xs arbitrary: s)
  case Nil
  then show ?case by (simp add: refl)
next
  case (Cons x xs)
  have first: "R s (final_state (body x s))" using Cons.prems by simp
  show ?case
  proof (cases "body x s")
    case (Inl e)
    then show ?thesis using first by (cases e) simp
  next
    case (Inr s')
    have "R s' (final_state (for_each body xs s'))"
      by (rule Cons.IH) (use Cons.prems in simp)
    then show ?thesis using first Inr trans by fastforce
  qed
qed

lemma save_morph_step_only_temp:
  "\<exists>t. final_state (save_morph_step cfg c0 f a b k s) = s\<lparr>temp_dir := t\<rparr>"
proof (cases "image_data_morph cfg a b k")
  case (Inl e)
  then have "final_state (save_morph_step cfg c0 f a b k s) = s\<lparr>temp_dir := temp_dir s\<rparr>"
    by (simp add: save_morph_step_def)
  then show ?thesis by blast
next
  case (Inr img)
  then show ?thesis by (simp add: save_morph_step_def) blast
qed

lemma for_each_only_temp:
  assumes "\<And>x s. x \<in> set xs \<Longrightarrow> \<exists>t. final_state (body x s) = s\<lparr>temp_dir := t\<rparr>"
  shows "\<exists>t. final_state (for_each body xs s) = s\<lparr>temp_dir := t\<rparr>"
proof (rule for_each_final_rel[where R = "\<lambda>s s'. \<exists>t. s' = s\<lparr>temp_dir := t\<rparr>"])
  show "\<exists>t. s = s\<lparr>temp_dir := t\<rparr>" for s :: state
    by (rule exI[of _ "temp_dir s"]) simp
  show "\<exists>t. s'' = s\<lparr>temp_dir := t\<rparr>"
    if "\<exists>t. s' = s\<lparr>temp_dir := t\<rparr>" "\<exists>t. s'' = s'\<lparr>temp_dir := t\<rparr>" for s s' s'' :: state
    using that by auto
  show "\<exists>t. final_state (body x s) = s\<lparr>temp_dir := t\<rparr>" if "x \<in> set xs" for x s
    using assms that by blast
qed

lemma same_state_only_temp: "\<exists>t. (s :: state) = s\<lparr>temp_dir := t\<rparr>"
  by (rule exI[of _ "temp_dir s"]) simp

lemma morph_file_only_temp:
  "\<exists>t. final_state (morph_file cfg pl f s) = s\<lparr>temp_dir := t\<rparr>"
  using for_each_only_temp[of _ "save_morph_step cfg _ f _ _" s, OF save_morph_step_only_temp]
    same_state_only_temp[of s]
  by (auto simp: morph_file_def split: sum.splits)

lemma make_color_morphs_only_temp:
  "\<exists>t. final_state (make_color_morphs cfg pl s) = s\<lparr>temp_dir := t\<rparr>"
  using for_each_only_temp[of _ "morph_file cfg pl" s, OF morph_file_only_temp]
    same_state_only_temp[of s]
  by (auto simp: make_color_morphs_def split: sum.splits)

lemma loop_state_simps [simp]:
  "loop_state (Inl (e, s)) = s" "loop_state (Inr (n, s)) = s"
  by (simp_all add: loop_state_def)










lemma make_color_morphs_morph_dir:
  "morph_dir (final_state (make_color_morphs cfg pl s)) = morph_dir s"
  using make_color_morphs_only_temp[of cfg pl s] by auto







subsection \<open>A missing still\<close>











subsection \<open>Exceptions and the encoder\<close>











subsection \<open>Loops that write files\<close>









subsection \<open>One feature dimension\<close>




















end
